theory Spec2Isabelle
  imports Main "HOL-Library.Word"
begin

section \<open>Data model (main.c, lines 63-136)\<close>

text \<open>
  The file state enum \<^verbatim>\<open>state_e\<close> and the per-file record \<^verbatim>\<open>data_t\<close>.
  The intrusive list (\<^verbatim>\<open>next\<close>) is a HOL list of records, head first.
  Bytes are 8-bit words; the C type \<^verbatim>\<open>char\<close> is read as signed (\<open>sint\<close>), as on the
  x86 targets of the program.
\<close>

datatype state_e = UNCHANGED | UPDATED

type_synonym byte = "8 word"

text \<open>
  The curses \<^verbatim>\<open>ITEM\<close> of a file: its position in the menu (\<^verbatim>\<open>item_index\<close>) and
  \<^verbatim>\<open>description.str\<close>, which is either the initial text (\<open>None\<close>) or a pointer into
  the owner's buffer, kept as an offset.
\<close>

record item_t =
  item_index :: nat
  description :: "nat option"

text \<open>
  \<open>fp\<close> is the open stream: the bytes of the file, in order, as \<^verbatim>\<open>fgetc\<close> delivers them
  from offset 0. \<open>buff\<close> is \<open>None\<close> for \<^verbatim>\<open>NULL\<close> and otherwise the allocated block,
  one list element per allocated byte. \<open>line\<close> is \<open>None\<close> for \<^verbatim>\<open>NULL\<close> and
  otherwise the offset of the pointer from \<open>buff\<close>.
\<close>

record data_t =
  fd :: int
  fp :: "byte list"
  full_path :: string
  base_name :: string
  line :: "nat option"
  buff :: "byte list option"
  state :: state_e
  item :: "item_t option"
  last_mod :: int

text \<open>
  Ways the process stops: \<^verbatim>\<open>ER\<close> prints its message and calls \<^verbatim>\<open>exit(-1)\<close>;
  \<^verbatim>\<open>usage\<close> prints an optional message and calls \<^verbatim>\<open>exit(0)\<close>; a store outside the
  allocated block and a dereference of \<^verbatim>\<open>NULL\<close> are undefined behaviour in C and are
  faults of their own here.
\<close>

datatype fault = ER string | Usage "string option" | OutOfBounds | NullPointer

definition EOF :: int where
  "EOF = - 1"

definition newline :: byte where
  "newline = 10"

definition COMMENT_CHAR :: char where
  "COMMENT_CHAR = CHR ''#''"

definition DEFAULT_TIMEOUT_SECS :: int where
  "DEFAULT_TIMEOUT_SECS = 10"

section \<open>The C library, as far as the program uses it\<close>

text \<open>
  An \<^verbatim>\<open>int\<close> converted to \<^verbatim>\<open>size_t\<close> (64 bits): negative values wrap around.
  \<^verbatim>\<open>sizeof(char)\<close> is 1 and \<^verbatim>\<open>sizeof(d->buff)\<close> is the size of a pointer, 8 on the
  64-bit targets. The byte budget is an \<^verbatim>\<open>int\<close> in the source and an integer here;
  overflow of \<^verbatim>\<open>int\<close> arithmetic is not modelled.
\<close>

definition size_t :: "int \<Rightarrow> nat" where
  "size_t n = nat (n mod 2 ^ 64)"

definition sizeof_char :: nat where
  "sizeof_char = 1"

definition sizeof_ptr :: nat where
  "sizeof_ptr = 8"

text \<open>
  The allocator is a parameter \<open>heap\<close>: \<open>heap n\<close> tells whether a request for \<open>n\<close>
  bytes is granted. A fresh block is modelled zero-filled; \<^verbatim>\<open>read_files\<close> overwrites
  every byte it has just obtained before reading any.
\<close>

definition malloc :: "(nat \<Rightarrow> bool) \<Rightarrow> nat \<Rightarrow> byte list option" where
  "malloc heap n = (if heap n then Some (replicate n 0) else None)"

definition realloc :: "(nat \<Rightarrow> bool) \<Rightarrow> byte list \<Rightarrow> nat \<Rightarrow> byte list option" where
  "realloc heap p n = (if heap n then Some (take n p @ replicate (n - length p) 0) else None)"

definition memset :: "byte list \<Rightarrow> byte \<Rightarrow> nat \<Rightarrow> fault + byte list" where
  "memset p c n = (if n \<le> length p then Inr (replicate n c @ drop n p) else Inl OutOfBounds)"

text \<open>
  \<^verbatim>\<open>fseek(fp, off, SEEK_END)\<close> on a regular file: the new position, or \<open>None\<close> when
  it would be negative (the call returns -1).
\<close>

definition fseek_end :: "byte list \<Rightarrow> int \<Rightarrow> nat option" where
  "fseek_end f off =
     (if int (length f) + off < 0 then None else Some (nat (int (length f) + off)))"

text \<open>A C string read from a block: the bytes before the first NUL.\<close>

definition c_string :: "byte list \<Rightarrow> byte list" where
  "c_string p = takeWhile (\<lambda>c. c \<noteq> 0) p"

section \<open>Tail extraction: \<^verbatim>\<open>read_files\<close> (main.c, lines 171-211)\<close>

text \<open>
  Lines 181-191: which allocator call is made for a file. The second test compares the
  budget with \<^verbatim>\<open>sizeof(d->buff)\<close>.
\<close>

datatype alloc_call = Malloc nat | Realloc "byte list" nat | Keep "byte list"

definition alloc_request :: "int \<Rightarrow> byte list option \<Rightarrow> alloc_call" where
  "alloc_request bytes b =
     (case b of
        None \<Rightarrow> Malloc (sizeof_char * size_t bytes)
      | Some old \<Rightarrow>
          if size_t bytes * sizeof_char \<noteq> sizeof_ptr
          then Realloc old (sizeof_char * size_t bytes)
          else Keep old)"

definition alloc_buff :: "(nat \<Rightarrow> bool) \<Rightarrow> int \<Rightarrow> byte list option \<Rightarrow> fault + byte list" where
  "alloc_buff heap bytes b =
     (case alloc_request bytes b of
        Malloc n \<Rightarrow>
          (case malloc heap n of
             None \<Rightarrow> Inl (ER ''Can't allocate memory for file buffer'')
           | Some p \<Rightarrow> Inr p)
      | Realloc old n \<Rightarrow>
          (case realloc heap old n of
             None \<Rightarrow> Inl (ER ''Can't reallocate memory for file buffer'')
           | Some p \<Rightarrow> Inr p)
      | Keep old \<Rightarrow> Inr old)"

text \<open>
  Lines 199-206, the \<^verbatim>\<open>fgetc\<close> loop over the bytes from the stream position to the
  end of the file. The byte read is stored in \<^verbatim>\<open>char c\<close> before the comparison with
  \<^verbatim>\<open>EOF\<close>. The state is the block, the index \<open>j\<close> and \<open>lst\<close> (the pointer \<^verbatim>\<open>last\<close>, as an offset).
\<close>

fun read_loop :: "byte list \<Rightarrow> byte list \<Rightarrow> nat \<Rightarrow> nat \<Rightarrow> fault + (byte list \<times> nat \<times> nat)" where
  "read_loop [] b j lst = Inr (b, j, lst)"
| "read_loop (c # cs) b j lst =
     (if sint c = EOF then Inr (b, j, lst)
      else if length b \<le> j then Inl OutOfBounds
      else read_loop cs (b[j := c]) (Suc j)
             (if 0 < j \<and> b[j := c] ! (j - 1) = newline then j else lst))"

text \<open>Lines 194-195: the stream position after the seek, with the rewind on failure.\<close>

definition seek_tail :: "byte list \<Rightarrow> int \<Rightarrow> nat" where
  "seek_tail f bytes = (case fseek_end f (- bytes) of None \<Rightarrow> 0 | Some pos \<Rightarrow> pos)"

text \<open>The body of the \<^verbatim>\<open>for\<close> loop, for one file.\<close>

definition read_file :: "(nat \<Rightarrow> bool) \<Rightarrow> int \<Rightarrow> data_t \<Rightarrow> fault + data_t" where
  "read_file heap bytes d =
     (if state d = UPDATED then
        (case alloc_buff heap bytes (buff d) of
           Inl e \<Rightarrow> Inl e
         | Inr b0 \<Rightarrow>
             (case memset b0 0 (sizeof_char * size_t bytes) of
                Inl e \<Rightarrow> Inl e
              | Inr b1 \<Rightarrow>
                  (case read_loop (drop (seek_tail (fp d) bytes) (fp d)) b1 0 0 of
                     Inl e \<Rightarrow> Inl e
                   | Inr (b2, j, lst) \<Rightarrow>
                       if length b2 \<le> j then Inl OutOfBounds
                       else Inr (d\<lparr>buff := Some (b2[j := 0]), line := Some lst\<rparr>))))
      else Inr d)"

fun read_files :: "(nat \<Rightarrow> bool) \<Rightarrow> int \<Rightarrow> nat \<Rightarrow> data_t list \<Rightarrow> fault + data_t list" where
  "read_files heap bytes opened_files [] = Inr []"
| "read_files heap bytes opened_files (d # ds) =
     (case read_file heap bytes d of
        Inl e \<Rightarrow> Inl e
      | Inr d' \<Rightarrow>
          (case read_files heap bytes opened_files ds of
             Inl e \<Rightarrow> Inl e
           | Inr ds' \<Rightarrow> Inr (d' # ds')))"

text \<open>
  What a reader of the buffer sees (line 348 reads \<^verbatim>\<open>buff\<close> up to the first NUL), and
  what the menu description pointing at \<^verbatim>\<open>line\<close> shows.
\<close>

definition tail_content :: "data_t \<Rightarrow> byte list" where
  "tail_content d = (case buff d of None \<Rightarrow> [] | Some b \<Rightarrow> c_string b)"

definition last_line :: "data_t \<Rightarrow> byte list" where
  "last_line d =
     (case buff d of
        None \<Rightarrow> []
      | Some b \<Rightarrow> (case line d of None \<Rightarrow> [] | Some k \<Rightarrow> c_string (drop k b)))"

text \<open>
  The bytes the loop of lines 199-206 consumes: from the stream position up to the end
  of the file or the first byte that \<^verbatim>\<open>char c\<close> turns into \<^verbatim>\<open>EOF\<close>.
\<close>

definition tail_window :: "byte list \<Rightarrow> int \<Rightarrow> byte list" where
  "tail_window f bytes = takeWhile (\<lambda>c. sint c \<noteq> EOF) (drop (seek_tail f bytes) f)"

section \<open>The screen: \<^verbatim>\<open>screen_create\<close>, \<^verbatim>\<open>menu_driver_update\<close> (main.c, lines 213-273, 437-502)\<close>

text \<open>
  Of \<^verbatim>\<open>screen_t\<close> the model keeps the data list, the menu's current item (an index
  into the items, which \<^verbatim>\<open>screen_create_menu\<close> creates in list order with the file as
  user pointer), the rows of the content window that carry \<^verbatim>\<open>UPDATED_CHAR\<close> since the
  menu was last posted, the size of the details window, the text painted into it (the
  padding blanks of lines 349-356 left out), whether its panel is shown, the \<^verbatim>\<open>getch\<close>
  timeout set by \<^verbatim>\<open>timeout()\<close>, and the number of calls of \<^verbatim>\<open>update_panels_safe\<close>.
  Messages printed by \<^verbatim>\<open>PR\<close>, \<^verbatim>\<open>DBG\<close> and \<^verbatim>\<open>WR\<close> are not modelled.
\<close>

record screen_t =
  datas :: "data_t list"
  current_item :: nat
  content_marks :: "nat list"
  details_maxy :: int
  details_maxx :: int
  details_text :: "byte list"
  details_shown :: bool
  input_timeout :: int
  flushes :: nat

fun create_items :: "nat \<Rightarrow> data_t list \<Rightarrow> data_t list" where
  "create_items i [] = []"
| "create_items i (d # ds) =
     d\<lparr>item := Some \<lparr>item_index = i, description = None\<rparr>\<rparr> # create_items (Suc i) ds"

text \<open>
  \<^verbatim>\<open>screen_create(datas, timeout_ms)\<close> for a terminal of \<open>LINES\<close> by \<open>COLS\<close>; the
  inner windows have \<^verbatim>\<open>LINES-3\<close> lines and \<^verbatim>\<open>COLS-2\<close> columns. Line 481 calls
  \<^verbatim>\<open>timeout(-1)\<close>; the parameter \<^verbatim>\<open>timeout_ms\<close> is not used in the body.
\<close>

definition screen_create :: "int \<Rightarrow> int \<Rightarrow> data_t list \<Rightarrow> int \<Rightarrow> screen_t" where
  "screen_create LINES COLS ds timeout_ms =
     \<lparr>datas = create_items 0 ds, current_item = 0, content_marks = [],
      details_maxy = LINES - 3, details_maxx = COLS - 2, details_text = [],
      details_shown = True, input_timeout = - 1, flushes = 0\<rparr>"

definition getMaxBytes :: "screen_t \<Rightarrow> int" where
  "getMaxBytes s = (details_maxx s - 2) * (details_maxy s - 2)"

text \<open>The row of a file in the content window: \<^verbatim>\<open>item_index(d->item)\<close>.\<close>

definition row_of :: "data_t \<Rightarrow> nat option" where
  "row_of d = map_option item_index (item d)"

text \<open>
  Lines 247-253: the description of every updated file is pointed at its last line.
  A file without an item would be a null dereference; \<^verbatim>\<open>screen_create_menu\<close> gives
  every file one.
\<close>

fun set_descriptions :: "data_t list \<Rightarrow> fault + data_t list" where
  "set_descriptions [] = Inr []"
| "set_descriptions (d # ds) =
     (if state d = UPDATED then
        (case item d of
           None \<Rightarrow> Inl NullPointer
         | Some it \<Rightarrow>
             (case set_descriptions ds of
                Inl e \<Rightarrow> Inl e
              | Inr ds' \<Rightarrow> Inr (d\<lparr>item := Some (it\<lparr>description := line d\<rparr>)\<rparr> # ds')))
      else
        (case set_descriptions ds of
           Inl e \<Rightarrow> Inl e
         | Inr ds' \<Rightarrow> Inr (d # ds')))"

text \<open>
  Lines 255-267. The list node \<open>d\<close> at position \<open>i\<close> is the user pointer of the current
  item exactly when \<open>i\<close> is the current item's index. The result is the new list and the
  rows at which \<^verbatim>\<open>UPDATED_CHAR\<close> was printed, in the order of the list.
\<close>

fun mark_updated :: "nat \<Rightarrow> nat \<Rightarrow> data_t list \<Rightarrow> fault + (data_t list \<times> nat list)" where
  "mark_updated cur i [] = Inr ([], [])"
| "mark_updated cur i (d # ds) =
     (if state d = UPDATED then
        (if i \<noteq> cur then
           (case item d of
              None \<Rightarrow> Inl NullPointer
            | Some it \<Rightarrow>
                (case mark_updated cur (Suc i) ds of
                   Inl e \<Rightarrow> Inl e
                 | Inr (ds', rows) \<Rightarrow> Inr (d # ds', item_index it # rows)))
         else
           (case mark_updated cur (Suc i) ds of
              Inl e \<Rightarrow> Inl e
            | Inr (ds', rows) \<Rightarrow> Inr (d\<lparr>state := UNCHANGED\<rparr> # ds', rows)))
      else
        (case mark_updated cur (Suc i) ds of
           Inl e \<Rightarrow> Inl e
         | Inr (ds', rows) \<Rightarrow> Inr (d # ds', rows)))"

text \<open>
  \<^verbatim>\<open>menu_driver_update(screen, c)\<close>. The curses \<^verbatim>\<open>menu_driver\<close> is the parameter
  \<open>drv\<close>: the new current item for the old one and the request. \<^verbatim>\<open>refresh_menus\<close>
  reposts the menu, which clears the content window's marks.
\<close>

definition menu_driver_update ::
  "(nat \<Rightarrow> int \<Rightarrow> nat) \<Rightarrow> screen_t \<Rightarrow> int \<Rightarrow> fault + screen_t" where
  "menu_driver_update drv s c =
     (let cur = (if 0 \<le> c then drv (current_item s) c else current_item s) in
      case set_descriptions (datas s) of
        Inl e \<Rightarrow> Inl e
      | Inr ds1 \<Rightarrow>
          (case mark_updated cur 0 ds1 of
             Inl e \<Rightarrow> Inl e
           | Inr (ds2, rows) \<Rightarrow>
               Inr (s\<lparr>datas := ds2, current_item := cur, content_marks := rows,
                      flushes := (if 0 < c then Suc (flushes s) else flushes s)\<rparr>)))"

section \<open>The watcher thread: \<^verbatim>\<open>thread_read_files\<close> (main.c, lines 275-435)\<close>

text \<open>
  The thread's state: the screen and the global \<^verbatim>\<open>show_details\<close> (the position of the
  file in the list, \<open>None\<close> for \<^verbatim>\<open>NULL\<close>).
\<close>

record watcher_t =
  screen :: screen_t
  show_details :: "nat option"

text \<open>
  Lines 339-367, common to both builds: extract the tails for the current size of the
  details window, then either update the menu and hide the details panel, or paint the
  buffer of the selected file into the details window and show it, then flush.
\<close>

definition paint_details :: "screen_t \<Rightarrow> nat \<Rightarrow> fault + screen_t" where
  "paint_details s k =
     (if k < length (datas s) then
        (case buff (datas s ! k) of
           None \<Rightarrow> Inl NullPointer
         | Some b \<Rightarrow> Inr (s\<lparr>details_text := c_string b, details_shown := True\<rparr>))
      else Inl NullPointer)"

definition extract_and_render ::
  "(nat \<Rightarrow> bool) \<Rightarrow> (nat \<Rightarrow> int \<Rightarrow> nat) \<Rightarrow> nat \<Rightarrow> watcher_t \<Rightarrow> fault + watcher_t" where
  "extract_and_render heap drv opened_files w =
     (case read_files heap (getMaxBytes (screen w)) opened_files (datas (screen w)) of
        Inl e \<Rightarrow> Inl e
      | Inr ds1 \<Rightarrow>
          (case (case show_details w of
                   None \<Rightarrow>
                     (case menu_driver_update drv ((screen w)\<lparr>datas := ds1\<rparr>) (- 1) of
                        Inl e \<Rightarrow> Inl e
                      | Inr s \<Rightarrow> Inr (s\<lparr>details_shown := False\<rparr>))
                 | Some k \<Rightarrow> paint_details ((screen w)\<lparr>datas := ds1\<rparr>) k) of
             Inl e \<Rightarrow> Inl e
           | Inr s \<Rightarrow> Inr (w\<lparr>screen := s\<lparr>flushes := Suc (flushes s)\<rparr>\<rparr>)))"

text \<open>
  The build with kqueue, lines 370-415. What \<^verbatim>\<open>kevent\<close> returns is the environment's
  move: a signal (for \<^verbatim>\<open>SIGWINCH\<close> with the new terminal size), a readable descriptor,
  an error, or nothing.
\<close>

datatype kevent = SIGWINCH int int | SIGUSR1 | SIGUSR2 | EVFILT_READ int | KeventError | NoEvent

fun mark_fd :: "int \<Rightarrow> data_t list \<Rightarrow> data_t list" where
  "mark_fd ident [] = []"
| "mark_fd ident (d # ds) =
     (if fd d = ident then d\<lparr>state := UPDATED\<rparr> # ds else d # mark_fd ident ds)"

text \<open>
  \<^verbatim>\<open>wresize\<close> fails, leaving the window as it is, unless both sizes are positive.
\<close>

definition wresize_details :: "screen_t \<Rightarrow> int \<Rightarrow> int \<Rightarrow> screen_t" where
  "wresize_details s nlines ncols =
     (if 0 < nlines \<and> 0 < ncols then s\<lparr>details_maxy := nlines, details_maxx := ncols\<rparr> else s)"

definition handle_kevent :: "kevent \<Rightarrow> watcher_t \<Rightarrow> watcher_t" where
  "handle_kevent ev w =
     (case ev of
        SIGWINCH LINES COLS \<Rightarrow>
          (let s = wresize_details (screen w) (LINES - 3) (COLS - 2)
           in w\<lparr>screen := s\<lparr>content_marks := [], flushes := Suc (flushes s)\<rparr>\<rparr>)
      | SIGUSR1 \<Rightarrow>
          w\<lparr>show_details :=
              (if current_item (screen w) < length (datas (screen w))
               then Some (current_item (screen w)) else None)\<rparr>
      | SIGUSR2 \<Rightarrow> w\<lparr>show_details := None\<rparr>
      | EVFILT_READ ident \<Rightarrow> w\<lparr>screen := (screen w)\<lparr>datas := mark_fd ident (datas (screen w))\<rparr>\<rparr>
      | KeventError \<Rightarrow> w
      | NoEvent \<Rightarrow> w)"

definition kqueue_iteration ::
  "(nat \<Rightarrow> bool) \<Rightarrow> (nat \<Rightarrow> int \<Rightarrow> nat) \<Rightarrow> nat \<Rightarrow> kevent \<Rightarrow> watcher_t \<Rightarrow> fault + watcher_t" where
  "kqueue_iteration heap drv opened_files ev w =
     (case extract_and_render heap drv opened_files w of
        Inl e \<Rightarrow> Inl e
      | Inr w1 \<Rightarrow> Inr (handle_kevent ev w1))"

text \<open>
  The build without kqueue, lines 417-430. \<open>stat\<close> gives the modification time of a
  path, or \<open>None\<close> when the call returns -1. The sweep is followed by
  \<^verbatim>\<open>usleep(25000)\<close>; the iteration returns the argument of that call with the state.
  (The declaration of \<^verbatim>\<open>stats\<close> at line 287 is commented out in the source; the
  branch is modelled as it is written.)
\<close>

definition stat_message :: "data_t \<Rightarrow> string" where
  "stat_message d = ''Could not obtain file stats for: '' @ [CHR 0x27] @ base_name d @ [CHR 0x27]"

fun poll_files :: "(string \<Rightarrow> int option) \<Rightarrow> data_t list \<Rightarrow> fault + data_t list" where
  "poll_files stat [] = Inr []"
| "poll_files stat (d # ds) =
     (case stat (full_path d) of
        None \<Rightarrow> Inl (ER (stat_message d))
      | Some st_mtime \<Rightarrow>
          (case poll_files stat ds of
             Inl e \<Rightarrow> Inl e
           | Inr ds' \<Rightarrow>
               Inr ((if st_mtime \<noteq> last_mod d
                     then d\<lparr>last_mod := st_mtime, state := UPDATED\<rparr> else d) # ds')))"

definition poll_iteration ::
  "(nat \<Rightarrow> bool) \<Rightarrow> (nat \<Rightarrow> int \<Rightarrow> nat) \<Rightarrow> nat \<Rightarrow> (string \<Rightarrow> int option) \<Rightarrow> watcher_t
     \<Rightarrow> fault + (watcher_t \<times> nat)" where
  "poll_iteration heap drv opened_files stat w =
     (case extract_and_render heap drv opened_files w of
        Inl e \<Rightarrow> Inl e
      | Inr w1 \<Rightarrow>
          (case poll_files stat (datas (screen w1)) of
             Inl e \<Rightarrow> Inl e
           | Inr ds \<Rightarrow> Inr (w1\<lparr>screen := (screen w1)\<lparr>datas := ds\<rparr>\<rparr>, 25000)))"

text \<open>
  The endless \<^verbatim>\<open>for (;;)\<close> of the polling build, run against the successive answers
  of the file system, one \<open>stat\<close> function per iteration: the state after the last of
  them, or the fault that ended the process.
\<close>

fun poll_loop ::
  "(nat \<Rightarrow> bool) \<Rightarrow> (nat \<Rightarrow> int \<Rightarrow> nat) \<Rightarrow> nat \<Rightarrow> (string \<Rightarrow> int option) list \<Rightarrow> watcher_t
     \<Rightarrow> fault + watcher_t" where
  "poll_loop heap drv opened_files [] w = Inr w"
| "poll_loop heap drv opened_files (stat # stats) w =
     (case poll_iteration heap drv opened_files stat w of
        Inl e \<Rightarrow> Inl e
      | Inr (w1, usecs) \<Rightarrow> poll_loop heap drv opened_files stats w1)"

text \<open>
  A relation between a file before and after a step of the watcher, used to state what
  a step leaves alone: the descriptor and the path stay, and an idle file stays as it is.
\<close>

definition untouched :: "data_t \<Rightarrow> data_t \<Rightarrow> bool" where
  "untouched d d' = (fd d' = fd d \<and> full_path d' = full_path d \<and> (state d = UNCHANGED \<longrightarrow> d' = d))"

section \<open>Start-up: \<^verbatim>\<open>data_init\<close> and \<^verbatim>\<open>main\<close> (main.c, lines 547-611, 815-878)\<close>

text \<open>
  The successive results of \<^verbatim>\<open>getline\<close> on a text: each line with its newline, and a
  last line without one when the text does not end in a newline.
\<close>

fun getlines :: "string \<Rightarrow> string \<Rightarrow> string list" where
  "getlines acc [] = (if acc = [] then [] else [rev acc])"
| "getlines acc (c # cs) =
     (if c = CHR 0x0A then rev (c # acc) # getlines [] cs else getlines (c # acc) cs)"

definition isspace :: "char \<Rightarrow> bool" where
  "isspace c = (c = CHR '' '' \<or> c = CHR 0x09 \<or> c = CHR 0x0A \<or> c = CHR 0x0B \<or> c = CHR 0x0C
     \<or> c = CHR 0x0D)"

text \<open>
  Lines 565-582 on one line of the config file, read as a C string: skip leading white
  space, drop a comment line, cut at the first comment character, then at the first
  newline, then at the first blank, and drop what is left when it is empty. The result
  is the path to open.
\<close>

definition parse_line :: "string \<Rightarrow> string option" where
  "parse_line ln =
     (let c = dropWhile isspace (takeWhile (\<lambda>x. x \<noteq> CHR 0x00) ln) in
      if (case c of [] \<Rightarrow> False | x # xs \<Rightarrow> x = COMMENT_CHAR) then None
      else
        (let c1 = takeWhile (\<lambda>x. x \<noteq> COMMENT_CHAR) c;
             c2 = takeWhile (\<lambda>x. x \<noteq> CHR 0x0A) c1;
             c3 = takeWhile (\<lambda>x. x \<noteq> CHR '' '') c2
         in if length c3 = 0 then None else Some c3))"

text \<open>
  \<^verbatim>\<open>basename\<close> of a path that \<^verbatim>\<open>fopen\<close> accepted: the part after the last slash
  (trailing slashes removed first).
\<close>

definition basename :: "string \<Rightarrow> string" where
  "basename path =
     (let p = rev (dropWhile (\<lambda>x. x = CHR ''/'') (rev path)) in
      if path = [] then ''.''
      else if p = [] then ''/''
      else rev (takeWhile (\<lambda>x. x \<noteq> CHR ''/'') (rev p)))"

text \<open>
  The loop of lines 563-608 over the lines of the config file. \<open>fopen\<close> gives the
  descriptor and the bytes of a path that can be opened for reading; \<open>fcntl_ok\<close> tells
  whether \<^verbatim>\<open>fcntl(F_SETFL)\<close> succeeds on a descriptor. \<open>head\<close> and \<open>n\<close> are the list
  built so far and \<^verbatim>\<open>*nb_of_opened_files\<close>.
\<close>

fun add_entries ::
  "(string \<Rightarrow> (int \<times> byte list) option) \<Rightarrow> (int \<Rightarrow> bool) \<Rightarrow> string list \<Rightarrow> data_t list \<Rightarrow> nat
     \<Rightarrow> fault + (data_t list \<times> nat)" where
  "add_entries fopen fcntl_ok [] head n = Inr (head, n)"
| "add_entries fopen fcntl_ok (ln # lns) head n =
     (case parse_line ln of
        None \<Rightarrow> add_entries fopen fcntl_ok lns head n
      | Some c \<Rightarrow>
          (case fopen c of
             None \<Rightarrow> add_entries fopen fcntl_ok lns head n
           | Some (fdn, bytes) \<Rightarrow>
               (let d = \<lparr>fd = fdn, fp = bytes, full_path = c, base_name = basename c,
                         line = None, buff = None, state = UPDATED, item = None,
                         last_mod = 0\<rparr>
                in if fcntl_ok fdn
                   then add_entries fopen fcntl_ok lns (d # head) (Suc n)
                   else Inl (ER (''Can't set blocking to file '' @ base_name d)))))"

text \<open>
  \<^verbatim>\<open>data_init(fname, &nb)\<close>: \<open>config\<close> gives the text of a config file that can be
  opened.
\<close>

definition data_init ::
  "(string \<Rightarrow> string option) \<Rightarrow> (string \<Rightarrow> (int \<times> byte list) option) \<Rightarrow> (int \<Rightarrow> bool) \<Rightarrow> string
     \<Rightarrow> nat \<Rightarrow> fault + (data_t list \<times> nat)" where
  "data_init config fopen fcntl_ok fname nb =
     (case config fname of
        None \<Rightarrow> Inl (ER (''Could not open config file '' @ [CHR 0x27] @ fname @ [CHR 0x27]))
      | Some text \<Rightarrow> add_entries fopen fcntl_ok (getlines [] text) [] nb)"

text \<open>The paths a config text lists, in the order of its lines.\<close>

definition config_paths :: "string \<Rightarrow> string list" where
  "config_paths text = List.map_filter parse_line (getlines [] text)"

text \<open>
  \<^verbatim>\<open>atoi\<close>: optional white space, an optional sign, then decimal digits (overflow, which
  is undefined in C, is not modelled).
\<close>

definition is_digit :: "char \<Rightarrow> bool" where
  "is_digit c = (48 \<le> (of_char c :: nat) \<and> (of_char c :: nat) \<le> 57)"

fun digits_val :: "int \<Rightarrow> string \<Rightarrow> int" where
  "digits_val acc [] = acc"
| "digits_val acc (c # cs) =
     (if is_digit c then digits_val (10 * acc + (of_char c - 48)) cs else acc)"

definition atoi :: "string \<Rightarrow> int" where
  "atoi s =
     (case dropWhile isspace s of
        [] \<Rightarrow> 0
      | c # cs \<Rightarrow>
          if c = CHR ''-'' then - digits_val 0 cs
          else if c = CHR ''+'' then digits_val 0 cs
          else digits_val 0 (c # cs))"

text \<open>
  The argument loop of \<^verbatim>\<open>main\<close>, lines 827-842, over \<^verbatim>\<open>argv[1..]\<close>, with the current
  \<^verbatim>\<open>fname\<close> and \<^verbatim>\<open>timeout_secs\<close>; then the checks of lines 845-848.
\<close>

fun parse_args :: "string list \<Rightarrow> string option \<Rightarrow> int \<Rightarrow> fault + (string option \<times> int)" where
  "parse_args [] fname timeout_secs = Inr (fname, timeout_secs)"
| "parse_args (a # as) fname timeout_secs =
     (if take 2 a = ''-d'' then
        (case as of
           [] \<Rightarrow> Inl (Usage (Some ''Incorrect timeout value specified''))
         | v # rest \<Rightarrow> parse_args rest fname (atoi v))
      else if take 2 a = ''-h'' then Inl (Usage None)
      else if (case a of [] \<Rightarrow> True | x # xs \<Rightarrow> x \<noteq> CHR ''-'') then
        parse_args as (Some a) timeout_secs
      else Inl (Usage (Some ''Invalid argument specified'')))"

definition main_args :: "string list \<Rightarrow> fault + (string \<times> int)" where
  "main_args argv =
     (case parse_args (tl argv) None DEFAULT_TIMEOUT_SECS of
        Inl e \<Rightarrow> Inl e
      | Inr (fname, timeout_secs) \<Rightarrow>
          (case fname of
             None \<Rightarrow> Inl (Usage (Some ''Please provide a configuration file''))
           | Some f \<Rightarrow>
               if timeout_secs < 0 then Inl (Usage (Some ''Incorrect timeout value specified''))
               else Inr (f, timeout_secs)))"

text \<open>
  \<^verbatim>\<open>main\<close> from the arguments to the start of the watcher thread (lines 859-868): the
  watcher's first state, for a terminal of \<open>LINES\<close> by \<open>COLS\<close>.
\<close>

definition main_start ::
  "(string \<Rightarrow> string option) \<Rightarrow> (string \<Rightarrow> (int \<times> byte list) option) \<Rightarrow> (int \<Rightarrow> bool) \<Rightarrow> int \<Rightarrow> int
     \<Rightarrow> string list \<Rightarrow> fault + (watcher_t \<times> nat)" where
  "main_start config fopen fcntl_ok LINES COLS argv =
     (case main_args argv of
        Inl e \<Rightarrow> Inl e
      | Inr (fname, timeout_secs) \<Rightarrow>
          (case data_init config fopen fcntl_ok fname 0 of
             Inl e \<Rightarrow> Inl e
           | Inr (ds, opened_files) \<Rightarrow>
               Inr (\<lparr>screen = screen_create LINES COLS ds (timeout_secs * 1000),
                     show_details = None\<rparr>, opened_files)))"

section \<open>Concrete inputs\<close>

text \<open>An allocator that grants every request, and one that refuses every request.\<close>

definition heap_ok :: "nat \<Rightarrow> bool" where
  "heap_ok n = True"

definition heap_none :: "nat \<Rightarrow> bool" where
  "heap_none n = False"

text \<open>
  A file that has just been registered by \<^verbatim>\<open>data_init\<close> (no buffer yet, state
  \<^verbatim>\<open>UPDATED\<close>), with the given bytes.
\<close>

definition fresh_file :: "byte list \<Rightarrow> data_t" where
  "fresh_file bytes =
     \<lparr>fd = 3, fp = bytes, full_path = ''/var/log/x'', base_name = ''x'', line = None,
      buff = None, state = UPDATED, item = None, last_mod = 0\<rparr>"

text \<open>
  The same file after a pass with budget 10 over the two bytes \<^verbatim>\<open>a\n\<close>: a block of ten
  bytes holding the text and its terminator. \<open>idle_tail\<close> is that file once the menu has
  acknowledged it.
\<close>

definition read_tail :: data_t where
  "read_tail = (fresh_file [97, 10])\<lparr>buff := Some [97, 10, 0, 0, 0, 0, 0, 0, 0, 0], line := Some 0\<rparr>"

definition idle_tail :: data_t where
  "idle_tail = read_tail\<lparr>state := UNCHANGED\<rparr>"

text \<open>
  The file \<^verbatim>\<open>a\n\<close> after a pass with budget 4: a block of four bytes.
\<close>

definition four_byte_tail :: data_t where
  "four_byte_tail = (fresh_file [97, 10])\<lparr>buff := Some [97, 10, 0, 0], line := Some 0\<rparr>"

text \<open>
  A menu driver that leaves the current item where it is, and a screen of 7 lines and
  9 columns right after \<^verbatim>\<open>screen_create\<close> over two registered files, before and after
  the first call of \<^verbatim>\<open>menu_driver_update(screen, -1)\<close>.
\<close>

definition stay :: "nat \<Rightarrow> int \<Rightarrow> nat" where
  "stay cur c = cur"

definition file_a :: data_t where
  "file_a = (fresh_file [97, 10])\<lparr>fd := 4, full_path := ''/var/log/a'', base_name := ''a''\<rparr>"

definition file_b :: data_t where
  "file_b = (fresh_file [98, 10])\<lparr>fd := 5, full_path := ''/var/log/b'', base_name := ''b''\<rparr>"

definition two_fresh :: screen_t where
  "two_fresh = screen_create 7 9 [file_a, file_b] 10000"


text \<open>
  The watcher's state over that screen at the start of the thread, and after its first
  iteration: both files extracted with the budget of 10 bytes, the first (the current
  item) acknowledged, the second marked. \<open>watcher_appended\<close> is that state once the
  two bytes \<^verbatim>\<open>c\n\<close> have been appended to the first file; \<open>watcher_flagged\<close> is what
  the next iteration of the kqueue build makes of it when \<^verbatim>\<open>kevent\<close> reports the file's
  descriptor readable.
\<close>

definition watcher_start :: watcher_t where
  "watcher_start = \<lparr>screen = two_fresh, show_details = None\<rparr>"

definition a_idle :: data_t where
  "a_idle =
     file_a\<lparr>line := Some 0, buff := Some [97, 10, 0, 0, 0, 0, 0, 0, 0, 0], state := UNCHANGED,
            item := Some \<lparr>item_index = 0, description = Some 0\<rparr>\<rparr>"

definition b_marked :: data_t where
  "b_marked =
     file_b\<lparr>line := Some 0, buff := Some [98, 10, 0, 0, 0, 0, 0, 0, 0, 0],
            item := Some \<lparr>item_index = 1, description = Some 0\<rparr>\<rparr>"

definition screen_idle :: screen_t where
  "screen_idle =
     \<lparr>datas = [a_idle, b_marked], current_item = 0, content_marks = [1],
      details_maxy = 4, details_maxx = 7, details_text = [], details_shown = False,
      input_timeout = - 1, flushes = 1\<rparr>"

definition watcher_idle :: watcher_t where
  "watcher_idle = \<lparr>screen = screen_idle, show_details = None\<rparr>"





text \<open>
  File systems for the polling build: one in which every path has modification time
  100, and one in which \<^verbatim>\<open>/var/log/a\<close> has been deleted.
\<close>

definition mtime_100 :: "string \<Rightarrow> int option" where
  "mtime_100 path = Some 100"

definition a_deleted :: "string \<Rightarrow> int option" where
  "a_deleted path = (if path = ''/var/log/a'' then None else Some 100)"

definition watcher_rendered :: watcher_t where
  "watcher_rendered = \<lparr>screen = screen_idle\<lparr>flushes := 2\<rparr>, show_details = None\<rparr>"


text \<open>
  A config file of five lines (a comment, a path, an empty line, a path that cannot be
  opened, an indented path with a trailing comment), the files that can be opened, and
  a \<^verbatim>\<open>fcntl\<close> that succeeds.
\<close>

definition conf_text :: string where
  "conf_text =
     ''# logs'' @ [CHR 0x0A] @ ''/var/log/a'' @ [CHR 0x0A] @ [CHR 0x0A] @ ''/missing'' @ [CHR 0x0A]
       @ ''  /var/log/b # second'' @ [CHR 0x0A]"

definition conf_only :: "string \<Rightarrow> string option" where
  "conf_only path = (if path = ''conf'' then Some conf_text else None)"

definition logs_a_b :: "string \<Rightarrow> (int \<times> byte list) option" where
  "logs_a_b path =
     (if path = ''/var/log/a'' then Some (4, [97, 10])
      else if path = ''/var/log/b'' then Some (5, [98, 10])
      else None)"

definition fcntl_fine :: "int \<Rightarrow> bool" where
  "fcntl_fine fdn = True"

text \<open>
  A run of the polling build from \<^verbatim>\<open>main\<close> through the first iteration of the watcher:
  the \<^verbatim>\<open>timeout_secs\<close> parsed, the argument of \<^verbatim>\<open>timeout()\<close>, and the argument of
  \<^verbatim>\<open>usleep()\<close>.
\<close>

definition polling_run_timing :: "string list \<Rightarrow> fault + (int \<times> int \<times> nat)" where
  "polling_run_timing argv =
     (case main_args argv of
        Inl e \<Rightarrow> Inl e
      | Inr (fname, timeout_secs) \<Rightarrow>
          (case main_start conf_only logs_a_b fcntl_fine 7 9 argv of
             Inl e \<Rightarrow> Inl e
           | Inr (w, opened_files) \<Rightarrow>
               (case poll_iteration heap_ok stay opened_files mtime_100 w of
                  Inl e \<Rightarrow> Inl e
                | Inr (w1, usecs) \<Rightarrow> Inr (timeout_secs, input_timeout (screen w), usecs))))"

text \<open>A file of three lines, \<^verbatim>\<open>a\nb\nc\n\<close>, after a pass with budget 10.\<close>

definition last_of_three :: data_t where
  "last_of_three =
     (fresh_file [97, 10, 98, 10, 99, 10])
       \<lparr>buff := Some [97, 10, 98, 10, 99, 10, 0, 0, 0, 0], line := Some 4\<rparr>"

section \<open>Properties of the tail extraction\<close>

subsection \<open>The read loop\<close>

lemma read_loop_buf:
  "read_loop cs b j lst = Inr (b', j', lst') \<Longrightarrow> j \<le> length b \<Longrightarrow>
     j' = j + length (takeWhile (\<lambda>c. sint c \<noteq> EOF) cs) \<and> j' \<le> length b \<and>
     b' = take j b @ takeWhile (\<lambda>c. sint c \<noteq> EOF) cs @ drop j' b"
proof (induction cs arbitrary: b j lst)
  case Nil
  then show ?case by simp
next
  case (Cons c cs)
  show ?case
  proof (cases "sint c = EOF")
    case True
    with Cons.prems show ?thesis by simp
  next
    case False
    with Cons.prems have jb: "j < length b"
      by (simp split: if_splits)
    let ?lst = "if 0 < j \<and> b[j := c] ! (j - 1) = newline then j else lst"
    from Cons.prems False jb
    have rec: "read_loop cs (b[j := c]) (Suc j) ?lst = Inr (b', j', lst')"
      by (simp split: if_splits)
    have sj: "Suc j \<le> length (b[j := c])" using jb by simp
    note ih = Cons.IH [OF rec sj]
    from ih have j': "j' = Suc j + length (takeWhile (\<lambda>c. sint c \<noteq> EOF) cs)" by simp
    from ih have le: "j' \<le> length b" by simp
    from ih have b': "b' = take (Suc j) (b[j := c]) @ takeWhile (\<lambda>c. sint c \<noteq> EOF) cs
        @ drop j' (b[j := c])"
      by simp
    have t: "take (Suc j) (b[j := c]) = take j b @ [c]"
      using jb by (simp add: take_Suc_conv_app_nth)
    have d: "drop j' (b[j := c]) = drop j' b"
      using j' by simp
    show ?thesis using False j' le b' t d by simp
  qed
qed

lemma read_loop_ok:
  "j + length (takeWhile (\<lambda>c. sint c \<noteq> EOF) cs) \<le> length b \<Longrightarrow>
     \<exists>r. read_loop cs b j lst = Inr r"
proof (induction cs arbitrary: b j lst)
  case Nil
  then show ?case by simp
next
  case (Cons c cs)
  show ?case
  proof (cases "sint c = EOF")
    case True
    then show ?thesis by simp
  next
    case False
    with Cons.prems have jb: "j < length b" by simp
    from Cons.prems False
    have "Suc j + length (takeWhile (\<lambda>c. sint c \<noteq> EOF) cs) \<le> length (b[j := c])" by simp
    from Cons.IH [OF this] False jb show ?thesis by simp
  qed
qed

lemma read_loop_last:
  "read_loop cs b j lst = Inr (b', j', lst') \<Longrightarrow>
     lst' = lst \<or> (j \<le> lst' \<and> 0 < lst' \<and> lst' < j' \<and> b' ! (lst' - 1) = newline)"
proof (induction cs arbitrary: b j lst)
  case Nil
  then show ?case by simp
next
  case (Cons c cs)
  show ?case
  proof (cases "sint c = EOF")
    case True
    with Cons.prems show ?thesis by simp
  next
    case False
    with Cons.prems have jb: "j < length b"
      by (simp split: if_splits)
    let ?lst = "if 0 < j \<and> b[j := c] ! (j - 1) = newline then j else lst"
    from Cons.prems False jb
    have rec: "read_loop cs (b[j := c]) (Suc j) ?lst = Inr (b', j', lst')"
      by (simp split: if_splits)
    note ih = Cons.IH [OF rec]
    have sj: "Suc j \<le> length (b[j := c])" using jb by simp
    note buf = read_loop_buf [OF rec sj]
    from buf have j': "Suc j \<le> j'" by simp
    have keep: "b' ! (j - 1) = b[j := c] ! (j - 1)" if "0 < j"
    proof -
      have "j - 1 < length (take (Suc j) (b[j := c]))" using jb by simp
      with buf show ?thesis by (simp add: nth_append)
    qed
    from ih show ?thesis
    proof
      assume eq: "lst' = ?lst"
      show ?thesis
      proof (cases "0 < j \<and> b[j := c] ! (j - 1) = newline")
        case True
        with eq keep j' show ?thesis by simp
      next
        case False
        with eq show ?thesis by auto
      qed
    next
      assume "Suc j \<le> lst' \<and> 0 < lst' \<and> lst' < j' \<and> b' ! (lst' - 1) = newline"
      then show ?thesis by simp
    qed
  qed
qed

lemma read_loop_mono:
  "read_loop cs b j lst = Inr (b', j', lst') \<Longrightarrow> lst \<le> j \<Longrightarrow> lst \<le> lst'"
  using read_loop_last [of cs b j lst b' j' lst'] by auto

lemma read_loop_max:
  "read_loop cs b j lst = Inr (b', j', lst') \<Longrightarrow> lst \<le> j \<Longrightarrow>
     j \<le> p \<Longrightarrow> p < j' \<Longrightarrow> 0 < p \<Longrightarrow> b' ! (p - 1) = newline \<Longrightarrow> p \<le> lst'"
proof (induction cs arbitrary: b j lst)
  case Nil
  then show ?case by simp
next
  case (Cons c cs)
  show ?case
  proof (cases "sint c = EOF")
    case True
    with Cons.prems show ?thesis by simp
  next
    case False
    with Cons.prems have jb: "j < length b"
      by (simp split: if_splits)
    let ?lst = "if 0 < j \<and> b[j := c] ! (j - 1) = newline then j else lst"
    from Cons.prems(1) False jb
    have rec: "read_loop cs (b[j := c]) (Suc j) ?lst = Inr (b', j', lst')"
      by (simp split: if_splits)
    have le: "?lst \<le> Suc j" using Cons.prems(2) by simp
    have sj: "Suc j \<le> length (b[j := c])" using jb by simp
    note buf = read_loop_buf [OF rec sj]
    show ?thesis
    proof (cases "p = j")
      case True
      have "j - 1 < length (take (Suc j) (b[j := c]))" using jb by simp
      with buf have "b' ! (j - 1) = b[j := c] ! (j - 1)"
        by (simp add: nth_append)
      with Cons.prems(5,6) True have "?lst = j" by simp
      with read_loop_mono [OF rec le] True show ?thesis by simp
    next
      case False
      with Cons.prems(3) have "Suc j \<le> p" by simp
      from Cons.IH [OF rec le this Cons.prems(4,5,6)] show ?thesis .
    qed
  qed
qed

subsection \<open>One file, and the whole list\<close>

lemma read_file_unchanged: "state d \<noteq> UPDATED \<Longrightarrow> read_file heap bytes d = Inr d"
  by (simp add: read_file_def)

lemma read_file_updated:
  assumes "read_file heap bytes d = Inr d'" and "state d = UPDATED"
  shows "\<exists>b0 b1 b2 lst.
           alloc_buff heap bytes (buff d) = Inr b0 \<and>
           memset b0 0 (sizeof_char * size_t bytes) = Inr b1 \<and>
           read_loop (drop (seek_tail (fp d) bytes) (fp d)) b1 0 0
             = Inr (b2, length (tail_window (fp d) bytes), lst) \<and>
           length (tail_window (fp d) bytes) < length b2 \<and>
           b2 = tail_window (fp d) bytes @ drop (length (tail_window (fp d) bytes)) b1 \<and>
           d' = d\<lparr>buff := Some (b2[length (tail_window (fp d) bytes) := 0]), line := Some lst\<rparr>"
proof -
  from assms obtain b0 where a: "alloc_buff heap bytes (buff d) = Inr b0"
    by (auto simp: read_file_def split: sum.splits)
  from assms a obtain b1 where m: "memset b0 0 (sizeof_char * size_t bytes) = Inr b1"
    by (auto simp: read_file_def split: sum.splits)
  from assms a m obtain b2 j lst where
    r: "read_loop (drop (seek_tail (fp d) bytes) (fp d)) b1 0 0 = Inr (b2, j, lst)"
    by (auto simp: read_file_def split: sum.splits)
  from assms a m r have j: "j < length b2"
    and d': "d' = d\<lparr>buff := Some (b2[j := 0]), line := Some lst\<rparr>"
    by (auto simp: read_file_def split: if_splits)
  from read_loop_buf [OF r] have jw: "j = length (tail_window (fp d) bytes)"
    and b2: "b2 = tail_window (fp d) bytes @ drop j b1"
    by (simp_all add: tail_window_def)
  from a m r j d' jw b2 show ?thesis by blast
qed


lemma read_files_length:
  "read_files heap bytes n ds = Inr ds' \<Longrightarrow> length ds' = length ds"
  by (induction ds arbitrary: ds') (auto split: sum.splits)

lemma read_files_nth:
  "read_files heap bytes n ds = Inr ds' \<Longrightarrow> i < length ds \<Longrightarrow>
     read_file heap bytes (ds ! i) = Inr (ds' ! i)"
proof (induction ds arbitrary: ds' i)
  case Nil
  then show ?case by simp
next
  case (Cons d ds)
  from Cons.prems(1) obtain d' ds'' where
    d': "read_file heap bytes d = Inr d'" and
    rest: "read_files heap bytes n ds = Inr ds''" and
    eq: "ds' = d' # ds''"
    by (auto split: sum.splits)
  show ?case
  proof (cases i)
    case 0
    with d' eq show ?thesis by simp
  next
    case (Suc k)
    with Cons.prems(2) have "k < length ds" by simp
    from Cons.IH [OF rest this] Suc eq show ?thesis by simp
  qed
qed

lemma tail_window_length: "0 \<le> bytes \<Longrightarrow> int (length (tail_window f bytes)) \<le> bytes"
proof -
  assume b: "0 \<le> bytes"
  have "length (tail_window f bytes) \<le> length (drop (seek_tail f bytes) f)"
    unfolding tail_window_def by (rule length_takeWhile_le)
  moreover have "int (length (drop (seek_tail f bytes) f)) \<le> bytes"
    using b by (simp add: seek_tail_def fseek_end_def)
  ultimately show ?thesis by linarith
qed

lemma tail_window_whole:
  assumes "int (length f) < bytes" and "\<forall>c\<in>set f. sint c \<noteq> EOF"
  shows "tail_window f bytes = f"
proof -
  from assms(1) have "seek_tail f bytes = 0"
    by (simp add: seek_tail_def fseek_end_def)
  with assms(2) show ?thesis
    by (simp add: tail_window_def)
qed

text \<open>
  What a successful pass leaves in the buffer of an updated file: the bytes of the
  window, then the terminator, all inside the block.
\<close>

lemma read_file_buffer:
  assumes "read_file heap bytes d = Inr d'" and "state d = UPDATED"
  shows "\<exists>b. buff d' = Some b \<and> length (tail_window (fp d) bytes) < length b \<and>
           take (length (tail_window (fp d) bytes)) b = tail_window (fp d) bytes \<and>
           b ! length (tail_window (fp d) bytes) = 0"
proof -
  let ?w = "tail_window (fp d) bytes"
  from read_file_updated [OF assms] obtain b1 b2 lst where
    len: "length ?w < length b2" and
    b2: "b2 = ?w @ drop (length ?w) b1" and
    d': "d' = d\<lparr>buff := Some (b2[length ?w := 0]), line := Some lst\<rparr>"
    by blast
  have "take (length ?w) b2 = ?w" using b2 by (metis append_eq_conv_conj)
  then have "take (length ?w) (b2[length ?w := 0]) = ?w" by simp
  moreover have "b2[length ?w := 0] ! length ?w = 0" using len by simp
  moreover have "length ?w < length (b2[length ?w := 0])" using len by simp
  moreover have "buff d' = Some (b2[length ?w := 0])" using d' by simp
  ultimately show ?thesis by blast
qed

lemma tail_content_window:
  assumes "read_file heap bytes d = Inr d'" and "state d = UPDATED"
  shows "tail_content d' = c_string (tail_window (fp d) bytes)"
proof -
  let ?w = "tail_window (fp d) bytes"
  from read_file_buffer [OF assms] obtain b where
    b: "buff d' = Some b" and len: "length ?w < length b" and
    tk: "take (length ?w) b = ?w" and z: "b ! length ?w = 0"
    by blast
  have "b = ?w @ drop (length ?w) b" using tk by (metis append_take_drop_id)
  moreover from len z have "drop (length ?w) b = 0 # drop (Suc (length ?w)) b"
    by (metis Cons_nth_drop_Suc)
  ultimately have "b = ?w @ 0 # drop (Suc (length ?w)) b" by simp
  moreover have "takeWhile (\<lambda>c. c \<noteq> 0) (?w @ 0 # r) = takeWhile (\<lambda>c. c \<noteq> 0) ?w" for r
    by (auto simp: takeWhile_append takeWhile_eq_all_conv [THEN iffD2, symmetric])
  ultimately have "takeWhile (\<lambda>c. c \<noteq> 0) b = takeWhile (\<lambda>c. c \<noteq> 0) ?w"
    by metis
  with b show ?thesis by (simp add: tail_content_def c_string_def)
qed

text \<open>
  What the extraction does deliver on the runs that return: for a non-negative budget the
  content is at most as long as the budget, and a file smaller than the budget that has
  neither a byte 255 nor a NUL is extracted whole.
\<close>

lemma tail_content_length:
  assumes "read_file heap bytes d = Inr d'" and "state d = UPDATED" and "0 \<le> bytes"
  shows "int (length (tail_content d')) \<le> bytes"
proof -
  have "length (c_string (tail_window (fp d) bytes)) \<le> length (tail_window (fp d) bytes)"
    unfolding c_string_def by (rule length_takeWhile_le)
  with tail_content_window [OF assms(1,2)] tail_window_length [OF assms(3), of "fp d"]
  show ?thesis by simp
qed

lemma tail_content_whole:
  assumes "read_file heap bytes d = Inr d'" and "state d = UPDATED"
    and "int (length (fp d)) < bytes"
    and "\<forall>c\<in>set (fp d). sint c \<noteq> EOF \<and> c \<noteq> 0"
  shows "tail_content d' = fp d"
proof -
  from assms(4) have "\<forall>c\<in>set (fp d). sint c \<noteq> EOF" by blast
  from tail_window_whole [OF assms(3) this] have "tail_window (fp d) bytes = fp d" .
  with tail_content_window [OF assms(1,2)] assms(4) show ?thesis
    by (simp add: c_string_def)
qed

subsection \<open>Files that are not updated\<close>

text \<open>
  Claim C10. A pass of \<^verbatim>\<open>read_files\<close> that returns leaves every file whose state is
  \<^verbatim>\<open>UNCHANGED\<close> exactly as it was (buffer, last-line pointer, state and every other
  field), whatever the byte budget; the list keeps its length.
\<close>

theorem read_files_frame:
  assumes "read_files heap bytes opened_files ds = Inr ds'"
  shows "length ds' = length ds \<and>
         (\<forall>i<length ds. state (ds ! i) = UNCHANGED \<longrightarrow> ds' ! i = ds ! i)"
proof -
  have "ds' ! i = ds ! i" if "i < length ds" and "state (ds ! i) = UNCHANGED" for i
  proof -
    from read_files_nth [OF assms that(1)]
    have "read_file heap bytes (ds ! i) = Inr (ds' ! i)" .
    moreover from that(2) have "read_file heap bytes (ds ! i) = Inr (ds ! i)"
      by (simp add: read_file_unchanged)
    ultimately show ?thesis by simp
  qed
  with read_files_length [OF assms] show ?thesis by blast
qed

theorem read_files_frame_witness:
  "read_files heap_ok 10 2 [idle_tail, fresh_file [97, 10]] = Inr [idle_tail, read_tail]
   \<and> state idle_tail = UNCHANGED
   \<and> length [idle_tail, read_tail] = length [idle_tail, fresh_file [97, 10]]
   \<and> [idle_tail, read_tail] ! 0 = [idle_tail, fresh_file [97, 10]] ! 0"
proof -
  have run: "read_files heap_ok 10 2 [idle_tail, fresh_file [97, 10]] = Inr [idle_tail, read_tail]"
    by code_simp
  have st: "state idle_tail = UNCHANGED"
    by (simp add: idle_tail_def)
  note len = read_files_frame [OF run, THEN conjunct1]
  have i0: "0 < length [idle_tail, fresh_file [97, 10]]" by simp
  have st0: "state ([idle_tail, fresh_file [97, 10]] ! 0) = UNCHANGED"
    using st by simp
  note nth0 = read_files_frame [OF run, THEN conjunct2, rule_format, OF i0 st0]
  from run st len nth0 show ?thesis by (intro conjI)
qed

subsection \<open>The last-line pointer\<close>

text \<open>
  Claim C2, as the code has it. After a pass that returns, the buffer of an updated file
  holds the window read, followed by the terminator, and \<open>line\<close> points into it at an
  offset \<open>k\<close> that is either 0 or lies inside the window right after a newline; and no
  later offset inside the window follows a newline. So \<open>k\<close> is the offset after the last
  newline that is followed by at least one more byte of the window, and 0 when there is
  no such newline: a newline that is the last byte read does not move the pointer.
\<close>

theorem last_line_marker:
  assumes "read_file heap bytes d = Inr d'" and "state d = UPDATED"
  shows "\<exists>b k. buff d' = Some b \<and> line d' = Some k \<and>
           length (tail_window (fp d) bytes) < length b \<and>
           take (length (tail_window (fp d) bytes)) b = tail_window (fp d) bytes \<and>
           (k = 0 \<or> (k < length (tail_window (fp d) bytes) \<and> b ! (k - 1) = newline)) \<and>
           (\<forall>p. 0 < p \<and> p < length (tail_window (fp d) bytes) \<and> b ! (p - 1) = newline
                \<longrightarrow> p \<le> k)"
proof -
  let ?w = "tail_window (fp d) bytes"
  from read_file_updated [OF assms] obtain b1 b2 lst where
    r: "read_loop (drop (seek_tail (fp d) bytes) (fp d)) b1 0 0 = Inr (b2, length ?w, lst)" and
    len: "length ?w < length b2" and
    b2: "b2 = ?w @ drop (length ?w) b1" and
    d': "d' = d\<lparr>buff := Some (b2[length ?w := 0]), line := Some lst\<rparr>"
    by blast
  let ?b = "b2[length ?w := 0]"
  have same: "?b ! (p - 1) = b2 ! (p - 1)" if "0 < p" "p \<le> length ?w" for p
    using that by simp
  have bd: "buff d' = Some ?b" and ld: "line d' = Some lst"
    using d' by simp_all
  have lenb: "length ?w < length ?b" using len by simp
  have "take (length ?w) b2 = ?w" using b2 by (metis append_eq_conv_conj)
  then have tk: "take (length ?w) ?b = ?w" by simp
  have k: "lst = 0 \<or> (lst < length ?w \<and> ?b ! (lst - 1) = newline)"
  proof (cases "lst = 0")
    case True
    then show ?thesis by simp
  next
    case False
    with read_loop_last [OF r] have l: "0 < lst" "lst < length ?w" "b2 ! (lst - 1) = newline"
      by simp_all
    from same [of lst] l have "?b ! (lst - 1) = newline" by simp
    with l show ?thesis by simp
  qed
  have mx: "p \<le> lst" if "0 < p" "p < length ?w" "?b ! (p - 1) = newline" for p
  proof -
    from that same have "b2 ! (p - 1) = newline" by simp
    from read_loop_max [OF r _ _ that(2) that(1) this] show ?thesis by simp
  qed
  have mx': "\<forall>p. 0 < p \<and> p < length ?w \<and> ?b ! (p - 1) = newline \<longrightarrow> p \<le> lst"
    using mx by blast
  from bd ld lenb tk k mx' show ?thesis
    by (intro exI [of _ ?b] exI [of _ lst] conjI)
qed

text \<open>
  The theorem at the six bytes \<^verbatim>\<open>a\nb\nc\n\<close> with budget 10: the pointer is at offset 4,
  the start of the last line, after the second newline.
\<close>

theorem last_line_marker_witness:
  "read_file heap_ok 10 (fresh_file [97, 10, 98, 10, 99, 10]) = Inr last_of_three
   \<and> state (fresh_file [97, 10, 98, 10, 99, 10]) = UPDATED
   \<and> line last_of_three = Some 4
   \<and> (\<exists>b k. buff last_of_three = Some b \<and> line last_of_three = Some k \<and>
          length (tail_window (fp (fresh_file [97, 10, 98, 10, 99, 10])) 10) < length b \<and>
          take (length (tail_window (fp (fresh_file [97, 10, 98, 10, 99, 10])) 10)) b
            = tail_window (fp (fresh_file [97, 10, 98, 10, 99, 10])) 10 \<and>
          (k = 0 \<or> (k < length (tail_window (fp (fresh_file [97, 10, 98, 10, 99, 10])) 10)
                     \<and> b ! (k - 1) = newline)) \<and>
          (\<forall>p. 0 < p \<and> p < length (tail_window (fp (fresh_file [97, 10, 98, 10, 99, 10])) 10)
                 \<and> b ! (p - 1) = newline \<longrightarrow> p \<le> k))"
proof -
  have run: "read_file heap_ok 10 (fresh_file [97, 10, 98, 10, 99, 10]) = Inr last_of_three"
    by code_simp
  have st: "state (fresh_file [97, 10, 98, 10, 99, 10]) = UPDATED"
    by (simp add: fresh_file_def)
  have ln: "line last_of_three = Some 4"
    by (simp add: last_of_three_def)
  from run st ln last_line_marker [OF run st] show ?thesis
    by (intro conjI)
qed

text \<open>
  The claim as the spec words it fails on a file that holds the one line \<^verbatim>\<open>a\n\<close>: the
  window contains a newline, and the pointer is at the buffer start, which follows no
  newline.
\<close>

theorem last_line_marker_counterexample:
  "read_file heap_ok 10 (fresh_file [97, 10]) = Inr read_tail
   \<and> line read_tail = Some 0
   \<and> tail_window (fp (fresh_file [97, 10])) 10 = [97, 10]
   \<and> newline \<in> set (tail_window (fp (fresh_file [97, 10])) 10)"
  by code_simp

subsection \<open>Defects of the extraction\<close>

lemma zero_budget_fails:
  assumes "state d = UPDATED"
  shows "read_file heap 0 d \<noteq> Inr d'"
proof
  assume ok: "read_file heap 0 d = Inr d'"
  let ?w = "tail_window (fp d) 0"
  from read_file_updated [OF ok assms] obtain b0 b1 b2 where
    a: "alloc_buff heap 0 (buff d) = Inr b0" and
    m: "memset b0 0 (sizeof_char * size_t 0) = Inr b1" and
    len: "length ?w < length b2" and
    b2: "b2 = ?w @ drop (length ?w) b1"
    by blast
  from a have "b0 = []"
    by (auto simp: alloc_buff_def alloc_request_def malloc_def realloc_def size_t_def
        sizeof_char_def sizeof_ptr_def split: option.splits if_splits)
  with m have "b1 = []" by (simp add: memset_def size_t_def)
  with b2 have "length b2 = length ?w" by simp
  with len show False by simp
qed

text \<open>
  Claim C1, where the code departs from it. The loop stores the result of \<^verbatim>\<open>fgetc\<close> in
  a \<^verbatim>\<open>char\<close> before comparing it with \<^verbatim>\<open>EOF\<close>, so the byte 255 ends the read: of the
  three bytes \<^verbatim>\<open>a\<close>, 255, \<^verbatim>\<open>b\<close>, with budget 10, only \<^verbatim>\<open>a\<close> is extracted, although the
  file is smaller than the budget. And a file of at least as many bytes as the budget
  fills the block, so that the terminator of line 207 is stored one byte past its end.
\<close>

theorem eof_byte_truncates_tail:
  "read_files heap_ok 10 1 [fresh_file [97, 255, 98]]
     = Inr [(fresh_file [97, 255, 98])\<lparr>buff := Some [97, 0, 0, 0, 0, 0, 0, 0, 0, 0], line := Some 0\<rparr>]
   \<and> tail_content
       ((fresh_file [97, 255, 98])\<lparr>buff := Some [97, 0, 0, 0, 0, 0, 0, 0, 0, 0], line := Some 0\<rparr>)
     = [97]
   \<and> fp (fresh_file [97, 255, 98]) = [97, 255, 98]
   \<and> read_files heap_ok 3 1 [fresh_file [97, 98, 99]] = Inl OutOfBounds"
  by code_simp

text \<open>
  Claim C5, where the code departs from it. The test of line 186 compares the budget
  with the size of a pointer, not with the capacity of the block. With a block of ten
  bytes and budget 10 \<^verbatim>\<open>realloc\<close> is called (and a refusal is fatal); with a block of
  four bytes and budget 8 it is not called, and \<^verbatim>\<open>memset\<close> writes eight bytes into the
  four.
\<close>

theorem realloc_test_uses_pointer_size:
  "buff read_tail = Some [97, 10, 0, 0, 0, 0, 0, 0, 0, 0]
   \<and> alloc_request 10 (buff read_tail) = Realloc [97, 10, 0, 0, 0, 0, 0, 0, 0, 0] 10
   \<and> read_file heap_none 10 read_tail = Inl (ER ''Can't reallocate memory for file buffer'')
   \<and> read_file heap_ok 4 (fresh_file [97, 10]) = Inr four_byte_tail
   \<and> alloc_request 8 (buff four_byte_tail) = Keep [97, 10, 0, 0]
   \<and> read_file heap_ok 8 four_byte_tail = Inl OutOfBounds"
  by code_simp

text \<open>
  Claim C6, where the code departs from it. With budget 0 the block has no bytes
  (\<^verbatim>\<open>malloc(0)\<close>, or \<^verbatim>\<open>realloc(buff, 0)\<close> for a file that has a buffer), nothing is read,
  and line 207 stores the terminator at index 0, outside the block. An allocator that
  answers a request for no bytes with \<^verbatim>\<open>NULL\<close> ends the process through \<^verbatim>\<open>ER\<close>.
\<close>

theorem zero_budget_overruns:
  "read_file heap_ok 0 (fresh_file [97, 10]) = Inl OutOfBounds
   \<and> read_file heap_ok 0 (fresh_file []) = Inl OutOfBounds
   \<and> read_file heap_ok 0 read_tail = Inl OutOfBounds
   \<and> read_file heap_none 0 (fresh_file [97, 10]) = Inl (ER ''Can't allocate memory for file buffer'')
   \<and> read_file heap_none 0 read_tail = Inl (ER ''Can't reallocate memory for file buffer'')"
  by code_simp

section \<open>Properties of the menu update\<close>






lemma create_items_rows:
  "k < length ds \<Longrightarrow> row_of (create_items i ds ! k) = Some (i + k)"
proof (induction ds arbitrary: i k)
  case Nil
  then show ?case by simp
next
  case (Cons d ds)
  show ?case
  proof (cases k)
    case 0
    then show ?thesis by (simp add: row_of_def)
  next
    case (Suc m)
    with Cons.prems have "m < length ds" by simp
    from Cons.IH [OF this, of "Suc i"] Suc show ?thesis by simp
  qed
qed

lemma create_items_length: "length (create_items i ds) = length ds"
  by (induction ds arbitrary: i) simp_all



section \<open>Properties of the watcher\<close>

subsection \<open>What a step leaves alone\<close>

lemma untouched_refl: "untouched d d"
  by (simp add: untouched_def)


lemma all2_untouched_refl: "list_all2 untouched ds ds"
  by (simp add: list_all2_refl untouched_refl)









lemma mark_fd_length: "length (mark_fd ident ds) = length ds"
  by (induction ds) simp_all



text \<open>
  The states used below are those of a run: the first iteration of the watcher takes the
  start state to \<open>watcher_idle\<close>.
\<close>

lemma first_iteration:
  "kqueue_iteration heap_ok stay 2 NoEvent watcher_start = Inr watcher_idle"
  by code_simp

subsection \<open>The order of flag and buffer\<close>





subsection \<open>The polling sweep\<close>

lemma poll_files_fatal:
  "d \<in> set ds \<Longrightarrow> stat (full_path d) = None \<Longrightarrow>
     \<exists>d'\<in>set ds. stat (full_path d') = None \<and> poll_files stat ds = Inl (ER (stat_message d'))"
proof (induction ds)
  case Nil
  then show ?case by simp
next
  case (Cons x xs)
  show ?case
  proof (cases "stat (full_path x)")
    case None
    then have "poll_files stat (x # xs) = Inl (ER (stat_message x))" by simp
    with None show ?thesis by auto
  next
    case (Some t)
    with Cons.prems have "d \<in> set xs" by auto
    from Cons.IH [OF this Cons.prems(2)] obtain d' where
      d': "d' \<in> set xs" "stat (full_path d') = None"
        "poll_files stat xs = Inl (ER (stat_message d'))"
      by blast
    with Some have "poll_files stat (x # xs) = Inl (ER (stat_message d'))" by simp
    with d' show ?thesis by auto
  qed
qed

text \<open>
  Claim C7. In the polling build, when the \<^verbatim>\<open>stat\<close> of a tracked file fails in the sweep
  of an iteration (whose extraction and rendering went through), the iteration ends the
  process with the diagnostic \<^verbatim>\<open>Could not obtain file stats for: '<name>'\<close> of a file
  whose \<^verbatim>\<open>stat\<close> failed, and so does the endless loop, whatever the file system answers
  afterwards: no further iteration runs.
\<close>

theorem stat_failure_is_fatal:
  assumes "extract_and_render heap drv opened_files w = Inr w1"
    and "d \<in> set (datas (screen w1))"
    and "stat (full_path d) = None"
  shows "\<exists>d'\<in>set (datas (screen w1)). stat (full_path d') = None \<and>
           poll_iteration heap drv opened_files stat w = Inl (ER (stat_message d')) \<and>
           (\<forall>stats. poll_loop heap drv opened_files (stat # stats) w = Inl (ER (stat_message d')))"
proof -
  from poll_files_fatal [of d "datas (screen w1)" stat, OF assms(2,3)] obtain d' where
    d': "d' \<in> set (datas (screen w1))" "stat (full_path d') = None"
      "poll_files stat (datas (screen w1)) = Inl (ER (stat_message d'))"
    by blast
  from assms(1) d'(3)
  have it: "poll_iteration heap drv opened_files stat w = Inl (ER (stat_message d'))"
    by (simp add: poll_iteration_def)
  then have "\<forall>stats. poll_loop heap drv opened_files (stat # stats) w = Inl (ER (stat_message d'))"
    by simp
  with d' it show ?thesis by blast
qed

theorem stat_failure_is_fatal_witness:
  "extract_and_render heap_ok stay 2 watcher_idle = Inr watcher_rendered
   \<and> a_idle \<in> set (datas (screen watcher_rendered))
   \<and> a_deleted (full_path a_idle) = None
   \<and> poll_loop heap_ok stay 2 [a_deleted, mtime_100] watcher_idle = Inl (ER (stat_message a_idle))"
proof -
  have run: "extract_and_render heap_ok stay 2 watcher_idle = Inr watcher_rendered"
    by code_simp
  have mem: "a_idle \<in> set (datas (screen watcher_rendered))"
    by (simp add: watcher_rendered_def screen_idle_def)
  have del: "a_deleted (full_path a_idle) = None"
    by code_simp
  from stat_failure_is_fatal [of heap_ok stay 2 watcher_idle watcher_rendered a_idle a_deleted,
      OF run mem del] obtain d' where
    "poll_loop heap_ok stay 2 (a_deleted # [mtime_100]) watcher_idle = Inl (ER (stat_message d'))"
    by blast
  moreover have "poll_loop heap_ok stay 2 [a_deleted, mtime_100] watcher_idle
      = Inl (ER (stat_message a_idle))"
    by code_simp
  ultimately show ?thesis using run mem del by simp
qed

subsection \<open>The refresh interval\<close>

lemma screen_create_timeout: "input_timeout (screen_create LINES COLS ds timeout_ms) = - 1"
  by (simp add: screen_create_def)

lemma poll_iteration_sleep:
  "poll_iteration heap drv opened_files stat w = Inr (w1, usecs) \<Longrightarrow> usecs = 25000"
  by (auto simp: poll_iteration_def split: sum.splits)

text \<open>
  Claim C9, where the code departs from it. Started with \<^verbatim>\<open>-d 5\<close>, \<^verbatim>\<open>main\<close> parses a
  timeout of 5 seconds and hands 5000 to \<^verbatim>\<open>screen_create\<close>, which calls \<^verbatim>\<open>timeout(-1)\<close>;
  the sweep of the polling build is followed by \<^verbatim>\<open>usleep(25000)\<close>, as it is without the
  flag.
\<close>

theorem refresh_interval_ignores_flag:
  "polling_run_timing [''treetop'', ''conf'', ''-d'', ''5''] = Inr (5, - 1, 25000)
   \<and> polling_run_timing [''treetop'', ''conf''] = Inr (10, - 1, 25000)"
proof -
  have di: "data_init conf_only logs_a_b fcntl_fine ''conf'' 0 = Inr ([file_b, file_a], 2)"
    by code_simp
  have m5: "main_args [''treetop'', ''conf'', ''-d'', ''5''] = Inr (''conf'', 5)"
    by code_simp
  have m10: "main_args [''treetop'', ''conf''] = Inr (''conf'', 10)"
    by code_simp
  have it: "case poll_iteration heap_ok stay 2 mtime_100
              \<lparr>screen = screen_create 7 9 [file_b, file_a] t, show_details = None\<rparr> of
              Inl e \<Rightarrow> False | Inr (w1, usecs) \<Rightarrow> usecs = 25000" for t
    by code_simp
  have tm: "input_timeout (screen_create 7 9 [file_b, file_a] t) = - 1" for t
    by (simp add: screen_create_def)
  show ?thesis
    using it [of 5000] it [of 10000]
    by (auto simp: polling_run_timing_def main_start_def m5 m10 di tm split: sum.splits)
qed

section \<open>Properties of the start-up\<close>

lemma add_entries_paths:
  "add_entries fopen fcntl_ok lns head n = Inr (ds, m) \<Longrightarrow>
     map full_path ds
       = rev (filter (\<lambda>p. fopen p \<noteq> None) (List.map_filter parse_line lns)) @ map full_path head"
proof (induction lns arbitrary: head n)
  case Nil
  then show ?case by (simp add: List.map_filter_simps)
next
  case (Cons ln lns)
  show ?case
  proof (cases "parse_line ln")
    case None
    with Cons show ?thesis by (simp add: List.map_filter_simps)
  next
    case (Some c)
    show ?thesis
    proof (cases "fopen c")
      case None
      with Some Cons show ?thesis by (simp add: List.map_filter_simps)
    next
      case (Some f)
      obtain fdn bytes where f: "f = (fdn, bytes)" by (cases f)
      let ?d = "\<lparr>fd = fdn, fp = bytes, full_path = c, base_name = basename c,
                 line = None, buff = None, state = UPDATED, item = None, last_mod = 0\<rparr>"
      from Cons.prems \<open>parse_line ln = Some c\<close> Some f
      have rec: "add_entries fopen fcntl_ok lns (?d # head) (Suc n) = Inr (ds, m)"
        by (simp add: Let_def split: if_splits)
      from Cons.IH [OF rec] \<open>parse_line ln = Some c\<close> Some
      show ?thesis by (simp add: List.map_filter_simps)
    qed
  qed
qed

text \<open>
  Claim C8. When \<^verbatim>\<open>data_init\<close> returns, the paths of the list it built are the paths of
  the config file's lines that could be opened, in the reverse of the order of the
  lines.
\<close>

theorem registry_is_reversed:
  assumes "data_init config fopen fcntl_ok fname nb = Inr (ds, n)"
  shows "\<exists>cfg. config fname = Some cfg \<and>
           map full_path ds = rev (filter (\<lambda>p. fopen p \<noteq> None) (config_paths cfg))"
proof -
  from assms obtain cfg where c: "config fname = Some cfg"
    by (auto simp: data_init_def split: option.splits)
  with assms have "add_entries fopen fcntl_ok (getlines [] cfg) [] nb = Inr (ds, n)"
    by (simp add: data_init_def)
  from add_entries_paths [OF this]
  have "map full_path ds = rev (filter (\<lambda>p. fopen p \<noteq> None) (config_paths cfg))"
    by (simp add: config_paths_def)
  with c show ?thesis by blast
qed

theorem registry_is_reversed_witness:
  "data_init conf_only logs_a_b fcntl_fine ''conf'' 0 = Inr ([file_b, file_a], 2)
   \<and> config_paths conf_text = [''/var/log/a'', ''/missing'', ''/var/log/b'']
   \<and> map full_path [file_b, file_a] = [''/var/log/b'', ''/var/log/a'']"
proof -
  have run: "data_init conf_only logs_a_b fcntl_fine ''conf'' 0 = Inr ([file_b, file_a], 2)"
    by code_simp
  have paths: "config_paths conf_text = [''/var/log/a'', ''/missing'', ''/var/log/b'']"
    by code_simp
  from registry_is_reversed [OF run] obtain cfg where
    t: "conf_only ''conf'' = Some cfg" and
    m: "map full_path [file_b, file_a] = rev (filter (\<lambda>p. logs_a_b p \<noteq> None) (config_paths cfg))"
    by blast
  from t have "cfg = conf_text" by (simp add: conf_only_def)
  with m paths have "map full_path [file_b, file_a] = [''/var/log/b'', ''/var/log/a'']"
    by (simp add: logs_a_b_def)
  with run paths show ?thesis by simp
qed

end
